theory Spec2Isabelle
  imports Main "HOL-Library.Word"
begin

unbundle bit_operations_syntax

section \<open>The recliner controller sketch (sketch_aug21a.ino)\<close>

text \<open>
  The sketch runs on an Arduino UNO, whose \<open>int\<close> is 16 bits wide. Every \<open>int\<close>
  global of the sketch is a 16-bit word; the sketch only tests such a value against
  zero, decrements it and masks it, so signedness never plays a role.
\<close>

type_synonym c_int = "16 word"
type_synonym pin = nat

subsection \<open>Constants of the sketch\<close>

definition motorLeftIn :: pin where "motorLeftIn = 4"
definition motorLeftOut :: pin where "motorLeftOut = 7"
definition motorRightIn :: pin where "motorRightIn = 8"
definition motorRightOut :: pin where "motorRightOut = 12"

definition upSwitchPin :: pin where "upSwitchPin = 2"
definition downSwitchPin :: pin where "downSwitchPin = 3"
definition leftSwitchPin :: pin where "leftSwitchPin = 9"
definition rightSwitchPin :: pin where "rightSwitchPin = 10"

definition NO_MOTOR :: c_int where "NO_MOTOR = 0"
definition LEFT_MOTOR :: c_int where "LEFT_MOTOR = 1"
definition RIGHT_MOTOR :: c_int where "RIGHT_MOTOR = 2"
definition BOTH_MOTOR :: c_int where "BOTH_MOTOR = 3"

definition RUN_OFF :: c_int where "RUN_OFF = 0"
definition RUN_IN :: c_int where "RUN_IN = 1"
definition RUN_OUT :: c_int where "RUN_OUT = 2"

subsection \<open>State and observable effects\<close>

text \<open>
  The globals of the sketch, together with the levels last written to the output
  pins (\<open>outputs\<close>, \<open>True\<close> for HIGH). The levels of the input pins are the
  argument \<open>rd\<close> of \<open>detect_switches\<close>: \<open>rd p\<close> is what \<open>digitalRead(p)\<close> returns.
\<close>

record controller =
  fault :: bool
  fix_timer :: c_int
  fix_direction :: c_int
  left_switch :: bool
  right_switch :: bool
  up_switch :: bool
  down_switch :: bool
  prev_up :: bool
  prev_down :: bool
  next_left :: bool
  next_right :: bool
  delay_next :: c_int
  outputs :: "pin \<Rightarrow> bool"

text \<open>
  What one pass of \<open>loop\<close> does besides changing the state, in program order:
  calls of \<open>set_motor_state\<close>, serial output and calls of \<open>delay\<close>.
\<close>

datatype event =
    MotorCmd c_int c_int
  | SerialPrint string
  | SerialPrintln string
  | Delay nat

fun is_motor_cmd :: "event \<Rightarrow> bool" where
  "is_motor_cmd (MotorCmd m d) = True"
| "is_motor_cmd _ = False"

subsection \<open>The motor driver\<close>

definition digitalWrite :: "pin \<Rightarrow> bool \<Rightarrow> (pin \<Rightarrow> bool) \<Rightarrow> (pin \<Rightarrow> bool)" where
  "digitalWrite p v out = out(p := v)"

definition set_motor_state :: "c_int \<Rightarrow> c_int \<Rightarrow> (pin \<Rightarrow> bool) \<Rightarrow> (pin \<Rightarrow> bool)" where
  "set_motor_state motors dir out =
     (let out1 =
        (if motors AND LEFT_MOTOR \<noteq> 0
         then digitalWrite motorLeftOut (dir = RUN_OUT)
                (digitalWrite motorLeftIn (dir = RUN_IN) out)
         else digitalWrite motorLeftOut False
                (digitalWrite motorLeftIn False out))
      in
        (if motors AND RIGHT_MOTOR \<noteq> 0
         then digitalWrite motorRightOut (dir = RUN_OUT)
                (digitalWrite motorRightIn (dir = RUN_IN) out1)
         else digitalWrite motorRightOut False
                (digitalWrite motorRightIn False out1)))"

text \<open>A call of \<open>set_motor_state\<close> on the output pins held in the state.\<close>

definition command :: "c_int \<Rightarrow> c_int \<Rightarrow> controller \<Rightarrow> controller" where
  "command motors dir s = s\<lparr>outputs := set_motor_state motors dir (outputs s)\<rparr>"

subsection \<open>Sampling the switches\<close>

definition detect_switches :: "(pin \<Rightarrow> bool) \<Rightarrow> controller \<Rightarrow> controller" where
  "detect_switches rd s =
     s\<lparr>up_switch := \<not> rd upSwitchPin,
       down_switch := \<not> rd downSwitchPin,
       left_switch := \<not> rd leftSwitchPin,
       right_switch := \<not> rd rightSwitchPin\<rparr>"

text \<open>
  The input pins are pulled up, so a closed switch reads LOW. \<open>switches u d l r\<close> is
  the reading in which the up, down, left-limit and right-limit switches are closed
  as the four flags say.
\<close>

definition switches :: "bool \<Rightarrow> bool \<Rightarrow> bool \<Rightarrow> bool \<Rightarrow> pin \<Rightarrow> bool" where
  "switches u d l r p =
     (if p = upSwitchPin then \<not> u
      else if p = downSwitchPin then \<not> d
      else if p = leftSwitchPin then \<not> l
      else if p = rightSwitchPin then \<not> r
      else True)"

subsection \<open>Start-up\<close>

text \<open>
  The globals before \<open>setup\<close> runs: \<open>fault\<close> and \<open>delay_next\<close> have initialisers,
  the others are zero-initialised. Output pins are LOW after reset.
\<close>

definition initial :: controller where
  "initial =
     \<lparr>fault = False, fix_timer = 0, fix_direction = 0,
      left_switch = False, right_switch = False,
      up_switch = False, down_switch = False,
      prev_up = False, prev_down = False,
      next_left = False, next_right = False,
      delay_next = 10,
      outputs = (\<lambda>p. False)\<rparr>"

definition setup_sketch :: "(pin \<Rightarrow> bool) \<Rightarrow> controller" where
  "setup_sketch rd = command BOTH_MOTOR RUN_OFF (detect_switches rd initial)"

subsection \<open>One pass of the loop\<close>

definition loop :: "(pin \<Rightarrow> bool) \<Rightarrow> controller \<Rightarrow> controller \<times> event list" where
  "loop rd s0 =
     (let s1 = detect_switches rd s0;
          s2 = (if left_switch s1 \<and> right_switch s1 then s1\<lparr>fault := True\<rparr> else s1);
          s3 = (if up_switch s2 \<and> down_switch s2 then s2\<lparr>fault := True\<rparr> else s2)
      in
        if fault s3 then
          (s3, [SerialPrint (''fault!'' @ [CHR 0x0A]), Delay 1000])
        else if delay_next s3 \<noteq> 0 then
          (command BOTH_MOTOR RUN_OFF (s3\<lparr>delay_next := delay_next s3 - 1\<rparr>),
           [MotorCmd BOTH_MOTOR RUN_OFF, Delay 1])
        else if fix_timer s3 \<noteq> 0 \<and> fix_direction s3 \<noteq> 0 then
          (if \<not> up_switch s3 \<and> \<not> down_switch s3 then
             (command BOTH_MOTOR RUN_OFF s3, [MotorCmd BOTH_MOTOR RUN_OFF])
           else
             (let s4 = s3\<lparr>fix_timer := fix_timer s3 - 1\<rparr> in
                if fix_timer s4 = 0 then
                  (let s5 = command BOTH_MOTOR RUN_OFF
                              (s4\<lparr>fix_timer := 0, fix_direction := NO_MOTOR\<rparr>);
                       s6 = (if left_switch s5 \<or> right_switch s5
                             then s5\<lparr>fault := True\<rparr> else s5)
                   in (s6, [MotorCmd BOTH_MOTOR RUN_OFF, Delay 1]))
                else
                  (command (fix_direction s4) RUN_IN s4,
                   [MotorCmd (fix_direction s4) RUN_IN, Delay 1])))
        else if left_switch s3 then
          (s3\<lparr>delay_next := 10, fix_timer := 750, fix_direction := LEFT_MOTOR\<rparr>,
           [SerialPrintln ''fix left''])
        else if right_switch s3 then
          (s3\<lparr>delay_next := 10, fix_timer := 750, fix_direction := RIGHT_MOTOR\<rparr>,
           [SerialPrintln ''fix right''])
        else if up_switch s3 \<noteq> prev_up s3 \<or> down_switch s3 \<noteq> prev_down s3 then
          (s3\<lparr>prev_up := up_switch s3, prev_down := down_switch s3, delay_next := 10\<rparr>,
           [])
        else if down_switch s3 then
          (command BOTH_MOTOR RUN_IN s3, [MotorCmd BOTH_MOTOR RUN_IN, Delay 1])
        else if up_switch s3 then
          (command BOTH_MOTOR RUN_OUT s3, [MotorCmd BOTH_MOTOR RUN_OUT, Delay 1])
        else (s3, []))"

text \<open>The state after one pass, the motor commands of one pass, and runs of passes.\<close>

definition tick :: "(pin \<Rightarrow> bool) \<Rightarrow> controller \<Rightarrow> controller" where
  "tick rd s = fst (loop rd s)"

definition motor_cmds :: "(pin \<Rightarrow> bool) \<Rightarrow> controller \<Rightarrow> event list" where
  "motor_cmds rd s = filter is_motor_cmd (snd (loop rd s))"

fun run :: "(pin \<Rightarrow> bool) list \<Rightarrow> controller \<Rightarrow> controller" where
  "run [] s = s"
| "run (rd # rds) s = run rds (tick rd s)"

section \<open>Vocabulary for the properties\<close>

text \<open>
  What \<open>detect_switches\<close> makes of a reading: a switch is closed when its pin reads
  LOW. \<open>fault_inputs\<close> is the condition under which \<open>loop\<close> sets the fault flag
  right after sampling: both limit switches closed, or both manual switches closed.
\<close>

definition up_closed :: "(pin \<Rightarrow> bool) \<Rightarrow> bool" where
  "up_closed rd = (\<not> rd upSwitchPin)"

definition down_closed :: "(pin \<Rightarrow> bool) \<Rightarrow> bool" where
  "down_closed rd = (\<not> rd downSwitchPin)"

definition left_closed :: "(pin \<Rightarrow> bool) \<Rightarrow> bool" where
  "left_closed rd = (\<not> rd leftSwitchPin)"

definition right_closed :: "(pin \<Rightarrow> bool) \<Rightarrow> bool" where
  "right_closed rd = (\<not> rd rightSwitchPin)"

definition fault_inputs :: "(pin \<Rightarrow> bool) \<Rightarrow> bool" where
  "fault_inputs rd =
     ((left_closed rd \<and> right_closed rd) \<or> (up_closed rd \<and> down_closed rd))"

text \<open>All four relay lines LOW.\<close>

definition all_off :: "(pin \<Rightarrow> bool) \<Rightarrow> bool" where
  "all_off out = (\<not> out motorLeftIn \<and> \<not> out motorLeftOut \<and>
                  \<not> out motorRightIn \<and> \<not> out motorRightOut)"

subsection \<open>Concrete readings and states reached from start-up\<close>

definition released :: "pin \<Rightarrow> bool" where
  "released = switches False False False False"

definition down_held :: "pin \<Rightarrow> bool" where
  "down_held = switches False True False False"

definition up_held :: "pin \<Rightarrow> bool" where
  "up_held = switches True False False False"

definition down_left :: "pin \<Rightarrow> bool" where
  "down_left = switches False True True False"

text \<open>
  \<open>idle_state\<close>: start-up with nothing pressed, then the ten passes of the start-up
  settling window. \<open>driving_in_state\<close> and \<open>driving_out_state\<close>: from there, a manual
  switch held for twelve passes (one pass detects the transition, ten settle, one
  drives). \<open>correcting_left_state\<close>: from \<open>idle_state\<close>, down and the left limit switch
  held for twelve passes (one starts the correction, ten settle, one drives the left
  motor in).
\<close>

definition idle_state :: controller where
  "idle_state = run (replicate 10 released) (setup_sketch released)"

definition driving_in_state :: controller where
  "driving_in_state = run (replicate 12 down_held) idle_state"

definition driving_out_state :: controller where
  "driving_out_state = run (replicate 12 up_held) idle_state"

definition correcting_left_state :: controller where
  "correcting_left_state = run (replicate 12 down_left) idle_state"



subsection \<open>Measuring a correction\<close>

text \<open>
  A reading on which the correction stage decrements its timer: it sets no fault and
  has a manual switch closed.
\<close>

definition driving :: "(pin \<Rightarrow> bool) \<Rightarrow> bool" where
  "driving rd = (\<not> fault_inputs rd \<and> (up_closed rd \<or> down_closed rd))"

text \<open>
  The number of passes of a run that command the corrected motor In, counted from a
  state with a correction active until the correction is over.
\<close>

fun correction_drive_passes :: "(pin \<Rightarrow> bool) list \<Rightarrow> controller \<Rightarrow> nat" where
  "correction_drive_passes [] s = 0"
| "correction_drive_passes (rd # rds) s =
     (if fix_timer s \<noteq> 0 \<and> fix_direction s \<noteq> 0 then
        (if MotorCmd (fix_direction s) RUN_IN \<in> set (snd (loop rd s)) then 1 else 0) +
        correction_drive_passes rds (tick rd s)
      else 0)"

section \<open>Basic facts\<close>

lemmas pin_defs =
  motorLeftIn_def motorLeftOut_def motorRightIn_def motorRightOut_def
  upSwitchPin_def downSwitchPin_def leftSwitchPin_def rightSwitchPin_def

lemmas const_defs =
  NO_MOTOR_def LEFT_MOTOR_def RIGHT_MOTOR_def BOTH_MOTOR_def
  RUN_OFF_def RUN_IN_def RUN_OUT_def

lemma run_append: "run (xs @ ys) s = run ys (run xs s)"
  by (induction xs arbitrary: s) simp_all

lemma tick_fault: "fault s \<Longrightarrow> fault (tick rd s)"
  by (simp add: tick_def loop_def Let_def detect_switches_def)

lemma run_fault: "fault s \<Longrightarrow> fault (run rds s)"
  by (induction rds arbitrary: s) (simp_all add: tick_fault)

lemmas closed_defs =
  up_closed_def down_closed_def left_closed_def right_closed_def fault_inputs_def

lemmas input_defs = released_def down_held_def up_held_def down_left_def

lemmas eval_simps =
  tick_def loop_def Let_def command_def detect_switches_def set_motor_state_def
  digitalWrite_def switches_def setup_sketch_def initial_def pin_defs const_defs

lemma replicate_num: "replicate (numeral k) x = x # replicate (pred_numeral k) x"
  by (simp add: numeral_eq_Suc)

subsection \<open>The concrete states in closed form\<close>

lemma idle_state_eq:
  "idle_state =
     \<lparr>fault = False, fix_timer = 0, fix_direction = 0,
      left_switch = False, right_switch = False,
      up_switch = False, down_switch = False,
      prev_up = False, prev_down = False,
      next_left = False, next_right = False,
      delay_next = 0,
      outputs = (\<lambda>p. False)\<rparr>"
  by (simp add: idle_state_def released_def replicate_num eval_simps fun_eq_iff)

lemma driving_in_state_eq:
  "driving_in_state =
     \<lparr>fault = False, fix_timer = 0, fix_direction = 0,
      left_switch = False, right_switch = False,
      up_switch = False, down_switch = True,
      prev_up = False, prev_down = True,
      next_left = False, next_right = False,
      delay_next = 0,
      outputs = (\<lambda>p. p = motorLeftIn \<or> p = motorRightIn)\<rparr>"
  by (simp add: driving_in_state_def idle_state_eq down_held_def replicate_num
        eval_simps fun_eq_iff)

lemma driving_out_state_eq:
  "driving_out_state =
     \<lparr>fault = False, fix_timer = 0, fix_direction = 0,
      left_switch = False, right_switch = False,
      up_switch = True, down_switch = False,
      prev_up = True, prev_down = False,
      next_left = False, next_right = False,
      delay_next = 0,
      outputs = (\<lambda>p. p = motorLeftOut \<or> p = motorRightOut)\<rparr>"
  by (simp add: driving_out_state_def idle_state_eq up_held_def replicate_num
        eval_simps fun_eq_iff)

lemma correcting_left_state_eq:
  "correcting_left_state =
     \<lparr>fault = False, fix_timer = 749, fix_direction = LEFT_MOTOR,
      left_switch = True, right_switch = False,
      up_switch = False, down_switch = True,
      prev_up = False, prev_down = False,
      next_left = False, next_right = False,
      delay_next = 0,
      outputs = (\<lambda>p. p = motorLeftIn)\<rparr>"
  by (simp add: correcting_left_state_def idle_state_eq down_left_def replicate_num
        eval_simps fun_eq_iff)

subsection \<open>The stages of one pass\<close>

lemma set_motor_state_off: "all_off (set_motor_state BOTH_MOTOR RUN_OFF out)"
  by (simp add: all_off_def set_motor_state_def digitalWrite_def Let_def pin_defs const_defs)

text \<open>The sampling and the two fault tests at the head of \<open>loop\<close>, as one update.\<close>

lemma latch_prefix:
  "(let s1 = detect_switches rd s;
        s2 = (if left_switch s1 \<and> right_switch s1 then s1\<lparr>fault := True\<rparr> else s1);
        s3 = (if up_switch s2 \<and> down_switch s2 then s2\<lparr>fault := True\<rparr> else s2)
    in f s3) =
   f ((detect_switches rd s)\<lparr>fault := fault s \<or> fault_inputs rd\<rparr>)"
  by (cases s) (auto simp add: Let_def detect_switches_def closed_defs)

lemma loop_fault:
  "fault s \<or> fault_inputs rd \<Longrightarrow>
   loop rd s = ((detect_switches rd s)\<lparr>fault := True\<rparr>,
                [SerialPrint (''fault!'' @ [CHR 0x0A]), Delay 1000])"
  by (simp only: loop_def latch_prefix) simp

lemma loop_debounce:
  "\<not> fault s \<Longrightarrow> \<not> fault_inputs rd \<Longrightarrow> delay_next s \<noteq> 0 \<Longrightarrow>
   loop rd s = ((detect_switches rd s)
                   \<lparr>delay_next := delay_next s - 1,
                    outputs := set_motor_state BOTH_MOTOR RUN_OFF (outputs s)\<rparr>,
                [MotorCmd BOTH_MOTOR RUN_OFF, Delay 1])"
  by (simp only: loop_def latch_prefix) (simp add: command_def detect_switches_def)

lemma loop_pause:
  "\<not> fault s \<Longrightarrow> \<not> fault_inputs rd \<Longrightarrow> delay_next s = 0 \<Longrightarrow>
   fix_timer s \<noteq> 0 \<Longrightarrow> fix_direction s \<noteq> 0 \<Longrightarrow>
   \<not> up_closed rd \<Longrightarrow> \<not> down_closed rd \<Longrightarrow>
   loop rd s = ((detect_switches rd s)
                   \<lparr>outputs := set_motor_state BOTH_MOTOR RUN_OFF (outputs s)\<rparr>,
                [MotorCmd BOTH_MOTOR RUN_OFF])"
  by (simp only: loop_def latch_prefix)
     (simp add: command_def detect_switches_def closed_defs)

lemma loop_correct_step:
  "\<not> fault s \<Longrightarrow> \<not> fault_inputs rd \<Longrightarrow> delay_next s = 0 \<Longrightarrow>
   fix_timer s \<noteq> 0 \<Longrightarrow> fix_direction s \<noteq> 0 \<Longrightarrow>
   up_closed rd \<or> down_closed rd \<Longrightarrow> fix_timer s \<noteq> 1 \<Longrightarrow>
   loop rd s = ((detect_switches rd s)
                   \<lparr>fix_timer := fix_timer s - 1,
                    outputs := set_motor_state (fix_direction s) RUN_IN (outputs s)\<rparr>,
                [MotorCmd (fix_direction s) RUN_IN, Delay 1])"
  by (simp only: loop_def latch_prefix)
     (auto simp add: Let_def command_def detect_switches_def closed_defs)

lemma loop_correct_done:
  "\<not> fault s \<Longrightarrow> \<not> fault_inputs rd \<Longrightarrow> delay_next s = 0 \<Longrightarrow>
   fix_timer s = 1 \<Longrightarrow> fix_direction s \<noteq> 0 \<Longrightarrow>
   up_closed rd \<or> down_closed rd \<Longrightarrow>
   loop rd s = ((detect_switches rd s)
                   \<lparr>fault := left_closed rd \<or> right_closed rd,
                    fix_timer := 0, fix_direction := NO_MOTOR,
                    outputs := set_motor_state BOTH_MOTOR RUN_OFF (outputs s)\<rparr>,
                [MotorCmd BOTH_MOTOR RUN_OFF, Delay 1])"
  by (simp only: loop_def latch_prefix)
     (auto simp add: Let_def command_def detect_switches_def closed_defs)

lemma loop_start_left:
  "\<not> fault s \<Longrightarrow> \<not> fault_inputs rd \<Longrightarrow> delay_next s = 0 \<Longrightarrow>
   \<not> (fix_timer s \<noteq> 0 \<and> fix_direction s \<noteq> 0) \<Longrightarrow> left_closed rd \<Longrightarrow>
   loop rd s = ((detect_switches rd s)
                   \<lparr>fix_timer := 750, fix_direction := LEFT_MOTOR, delay_next := 10\<rparr>,
                [SerialPrintln ''fix left''])"
  by (simp only: loop_def latch_prefix)
     (auto simp add: Let_def command_def detect_switches_def closed_defs)

lemma loop_start_right:
  "\<not> fault s \<Longrightarrow> \<not> fault_inputs rd \<Longrightarrow> delay_next s = 0 \<Longrightarrow>
   \<not> (fix_timer s \<noteq> 0 \<and> fix_direction s \<noteq> 0) \<Longrightarrow>
   \<not> left_closed rd \<Longrightarrow> right_closed rd \<Longrightarrow>
   loop rd s = ((detect_switches rd s)
                   \<lparr>fix_timer := 750, fix_direction := RIGHT_MOTOR, delay_next := 10\<rparr>,
                [SerialPrintln ''fix right''])"
  by (simp only: loop_def latch_prefix)
     (auto simp add: Let_def command_def detect_switches_def closed_defs)

lemma loop_transition:
  "\<not> fault s \<Longrightarrow> \<not> fault_inputs rd \<Longrightarrow> delay_next s = 0 \<Longrightarrow>
   \<not> (fix_timer s \<noteq> 0 \<and> fix_direction s \<noteq> 0) \<Longrightarrow>
   \<not> left_closed rd \<Longrightarrow> \<not> right_closed rd \<Longrightarrow>
   up_closed rd \<noteq> prev_up s \<or> down_closed rd \<noteq> prev_down s \<Longrightarrow>
   loop rd s = ((detect_switches rd s)
                   \<lparr>prev_up := up_closed rd, prev_down := down_closed rd,
                    delay_next := 10\<rparr>,
                [])"
  by (simp only: loop_def latch_prefix)
     (auto simp add: Let_def command_def detect_switches_def closed_defs)

lemma loop_manual:
  "\<not> fault s \<Longrightarrow> \<not> fault_inputs rd \<Longrightarrow> delay_next s = 0 \<Longrightarrow>
   \<not> (fix_timer s \<noteq> 0 \<and> fix_direction s \<noteq> 0) \<Longrightarrow>
   \<not> left_closed rd \<Longrightarrow> \<not> right_closed rd \<Longrightarrow>
   up_closed rd = prev_up s \<Longrightarrow> down_closed rd = prev_down s \<Longrightarrow>
   loop rd s =
     (if down_closed rd then
        ((detect_switches rd s)
            \<lparr>outputs := set_motor_state BOTH_MOTOR RUN_IN (outputs s)\<rparr>,
         [MotorCmd BOTH_MOTOR RUN_IN, Delay 1])
      else if up_closed rd then
        ((detect_switches rd s)
            \<lparr>outputs := set_motor_state BOTH_MOTOR RUN_OUT (outputs s)\<rparr>,
         [MotorCmd BOTH_MOTOR RUN_OUT, Delay 1])
      else (detect_switches rd s, []))"
  by (simp only: loop_def latch_prefix)
     (auto simp add: Let_def command_def detect_switches_def closed_defs)

subsection \<open>Timer and direction are set and cleared together\<close>

lemma timer_inv_tick:
  "(fix_direction s \<noteq> 0 \<longrightarrow> fix_timer s \<noteq> 0) \<Longrightarrow>
   (fix_direction (tick rd s) \<noteq> 0 \<longrightarrow> fix_timer (tick rd s) \<noteq> 0)"
  by (simp only: tick_def loop_def latch_prefix)
     (auto simp add: Let_def command_def detect_switches_def const_defs)

lemma timer_inv_run:
  "(fix_direction s \<noteq> 0 \<longrightarrow> fix_timer s \<noteq> 0) \<Longrightarrow>
   (fix_direction (run rds s) \<noteq> 0 \<longrightarrow> fix_timer (run rds s) \<noteq> 0)"
proof (induction rds arbitrary: s)
  case Nil
  then show ?case by simp
next
  case (Cons rd rds)
  from Cons.prems have "fix_direction (tick rd s) \<noteq> 0 \<longrightarrow> fix_timer (tick rd s) \<noteq> 0"
    by (rule timer_inv_tick)
  then show ?case using Cons.IH by simp
qed

lemma timer_inv_setup: "fix_direction (setup_sketch rd0) = 0"
  by (simp add: setup_sketch_def command_def detect_switches_def initial_def)

lemma dir_inv_tick:
  "fix_direction s = NO_MOTOR \<or> fix_direction s = LEFT_MOTOR \<or> fix_direction s = RIGHT_MOTOR \<Longrightarrow>
   fix_direction (tick rd s) = NO_MOTOR \<or> fix_direction (tick rd s) = LEFT_MOTOR \<or>
   fix_direction (tick rd s) = RIGHT_MOTOR"
  by (simp only: tick_def loop_def latch_prefix)
     (auto simp add: Let_def command_def detect_switches_def)

lemma dir_inv_run:
  "fix_direction s = NO_MOTOR \<or> fix_direction s = LEFT_MOTOR \<or> fix_direction s = RIGHT_MOTOR \<Longrightarrow>
   fix_direction (run rds s) = NO_MOTOR \<or> fix_direction (run rds s) = LEFT_MOTOR \<or>
   fix_direction (run rds s) = RIGHT_MOTOR"
proof (induction rds arbitrary: s)
  case Nil
  then show ?case by simp
next
  case (Cons rd rds)
  from Cons.prems
  have "fix_direction (tick rd s) = NO_MOTOR \<or> fix_direction (tick rd s) = LEFT_MOTOR \<or>
        fix_direction (tick rd s) = RIGHT_MOTOR"
    by (rule dir_inv_tick)
  then show ?case using Cons.IH by simp
qed

lemma active_commands:
  "fix_timer s \<noteq> 0 \<Longrightarrow> fix_direction s \<noteq> 0 \<Longrightarrow>
   MotorCmd m d \<in> set (snd (loop rd s)) \<Longrightarrow>
   (m = BOTH_MOTOR \<and> d = RUN_OFF) \<or> (m = fix_direction s \<and> d = RUN_IN)"
  by (simp only: loop_def latch_prefix)
     (auto simp add: Let_def command_def detect_switches_def split: if_splits)

lemma active_outputs:
  "fix_timer s \<noteq> 0 \<Longrightarrow> fix_direction s \<noteq> 0 \<Longrightarrow> motor_cmds rd s \<noteq> [] \<Longrightarrow>
   \<not> outputs (tick rd s) motorLeftOut \<and> \<not> outputs (tick rd s) motorRightOut"
  by (simp only: motor_cmds_def tick_def loop_def latch_prefix)
     (auto simp add: Let_def command_def detect_switches_def set_motor_state_def
        digitalWrite_def pin_defs const_defs split: if_splits)

subsection \<open>The timer of a correction\<close>

lemma unat_pred: "(x :: c_int) \<noteq> 0 \<Longrightarrow> unat (x - 1) = unat x - 1"
  by (rule unat_minus_one)

lemma unat_nonzero: "((x :: c_int) \<noteq> 0) = (0 < unat x)"
  by (simp add: unat_gt_0)

lemma unat_one_iff: "(unat (x :: c_int) = Suc 0) = (x = 1)"
  by (metis One_nat_def unat_1 word_unat_eq_iff)

lemma active_step:
  assumes "\<not> fault s" and "fix_timer s \<noteq> 0" and "fix_direction s \<noteq> 0" and "driving rd"
    and "Suc 0 < unat (delay_next s) + unat (fix_timer s)"
  shows "\<not> fault (tick rd s) \<and> fix_timer (tick rd s) \<noteq> 0 \<and>
         fix_direction (tick rd s) = fix_direction s \<and>
         unat (delay_next (tick rd s)) = unat (delay_next s) - 1 \<and>
         unat (fix_timer (tick rd s)) = unat (fix_timer s) - (1 - unat (delay_next s))"
proof (cases "delay_next s = 0")
  case True
  with assms(5) have "fix_timer s \<noteq> 1" by auto
  with assms True show ?thesis
    by (simp add: driving_def tick_def loop_correct_step detect_switches_def unat_pred)
next
  case False
  then have "0 < unat (delay_next s)" by (simp add: unat_nonzero)
  with assms False show ?thesis
    by (simp add: driving_def tick_def loop_debounce detect_switches_def unat_pred)
qed

lemma correction_progress:
  "\<not> fault s \<Longrightarrow> fix_timer s \<noteq> 0 \<Longrightarrow> fix_direction s \<noteq> 0 \<Longrightarrow>
   \<forall>rd \<in> set rds. driving rd \<Longrightarrow>
   length rds < unat (delay_next s) + unat (fix_timer s) \<Longrightarrow>
   \<not> fault (run rds s) \<and> fix_timer (run rds s) \<noteq> 0 \<and>
   fix_direction (run rds s) = fix_direction s \<and>
   unat (delay_next (run rds s)) = unat (delay_next s) - length rds \<and>
   unat (fix_timer (run rds s)) =
     unat (fix_timer s) - (length rds - unat (delay_next s))"
proof (induction rds arbitrary: s)
  case Nil
  then show ?case by simp
next
  case (Cons rd rds)
  have drv: "driving rd" and rest: "\<forall>rd \<in> set rds. driving rd"
    using Cons.prems(4) by simp_all
  have big: "Suc 0 < unat (delay_next s) + unat (fix_timer s)"
    using Cons.prems(5) by simp
  note st = active_step [OF Cons.prems(1,2,3) drv big]
  have len: "length rds < unat (delay_next (tick rd s)) + unat (fix_timer (tick rd s))"
    using st Cons.prems(5) by (simp; arith)
  have ih: "\<not> fault (run rds (tick rd s)) \<and> fix_timer (run rds (tick rd s)) \<noteq> 0 \<and>
     fix_direction (run rds (tick rd s)) = fix_direction (tick rd s) \<and>
     unat (delay_next (run rds (tick rd s))) = unat (delay_next (tick rd s)) - length rds \<and>
     unat (fix_timer (run rds (tick rd s))) =
       unat (fix_timer (tick rd s)) - (length rds - unat (delay_next (tick rd s)))"
    using st rest len Cons.prems(3) by (intro Cons.IH) simp_all
  show ?case
    using ih st Cons.prems(5) by (simp; arith)
qed

lemma correction_completes:
  assumes "\<not> fault s" and "fix_timer s \<noteq> 0" and "fix_direction s \<noteq> 0"
    and "\<forall>rd \<in> set rds. driving rd"
    and "length rds = unat (delay_next s) + unat (fix_timer s)"
  shows "fix_timer (run rds s) = 0 \<and> fix_direction (run rds s) = NO_MOTOR \<and>
         all_off (outputs (run rds s)) \<and>
         fault (run rds s) = (left_closed (last rds) \<or> right_closed (last rds))"
proof -
  have pos: "0 < unat (fix_timer s)"
    using assms(2) by (simp add: unat_nonzero)
  with assms(5) have ne: "rds \<noteq> []" by auto
  define pre where "pre = butlast rds"
  define rd where "rd = last rds"
  have split: "rds = pre @ [rd]"
    using ne by (simp add: pre_def rd_def)
  have drv: "\<forall>rd \<in> set pre. driving rd" and drv_last: "driving rd"
    using assms(4) split by simp_all
  have len: "length pre < unat (delay_next s) + unat (fix_timer s)"
    using assms(5) split by simp
  note p = correction_progress [OF assms(1,2,3) drv len]
  have lp: "Suc (length pre) = unat (delay_next s) + unat (fix_timer s)"
    using assms(5) split by simp
  have d0: "unat (delay_next (run pre s)) = 0" and t1: "unat (fix_timer (run pre s)) = 1"
    using p lp pos by (simp_all; arith)+
  have d: "delay_next (run pre s) = 0"
    using d0 by (simp add: unat_eq_0)
  have t: "fix_timer (run pre s) = 1"
    using t1 by (simp add: unat_one_iff)
  have f: "\<not> fault (run pre s)" and dir: "fix_direction (run pre s) \<noteq> 0"
    using p assms(3) by simp_all
  have nf: "\<not> fault_inputs rd" and man: "up_closed rd \<or> down_closed rd"
    using drv_last by (simp_all add: driving_def)
  have "run rds s = tick rd (run pre s)"
    by (simp add: split run_append)
  then show ?thesis
    using loop_correct_done [OF f nf d t dir man] f
    by (simp add: tick_def detect_switches_def set_motor_state_off rd_def)
qed

lemma inactive_no_drive:
  "\<not> (fix_timer s \<noteq> 0 \<and> fix_direction s \<noteq> 0) \<Longrightarrow> correction_drive_passes rds s = 0"
  by (cases rds) auto

lemma drive_pass_timer:
  "fix_timer s \<noteq> 0 \<Longrightarrow> fix_direction s \<noteq> 0 \<Longrightarrow>
   (if MotorCmd (fix_direction s) RUN_IN \<in> set (snd (loop rd s))
    then fix_timer s \<noteq> 1 \<and> fix_timer (tick rd s) = fix_timer s - 1
    else fix_timer (tick rd s) = fix_timer s \<or> fix_timer (tick rd s) = 0)"
  by (simp only: tick_def loop_def latch_prefix)
     (auto simp add: Let_def command_def detect_switches_def const_defs)

lemma drive_passes_bound:
  "correction_drive_passes rds s \<le> unat (fix_timer s) - 1"
proof (induction rds arbitrary: s)
  case Nil
  then show ?case by simp
next
  case (Cons rd rds)
  show ?case
  proof (cases "fix_timer s \<noteq> 0 \<and> fix_direction s \<noteq> 0")
    case False
    then show ?thesis by auto
  next
    case True
    then have t: "fix_timer s \<noteq> 0" and d: "fix_direction s \<noteq> 0" by simp_all
    note step = drive_pass_timer [OF t d, of rd]
    note ih = Cons.IH [of "tick rd s"]
    show ?thesis
    proof (cases "MotorCmd (fix_direction s) RUN_IN \<in> set (snd (loop rd s))")
      case drive: True
      with step have n1: "fix_timer s \<noteq> 1" and eq: "fix_timer (tick rd s) = fix_timer s - 1"
        by simp_all
      have "unat (fix_timer s) \<noteq> 0" "unat (fix_timer s) \<noteq> 1"
        using t n1 by (simp_all add: unat_eq_0 unat_one_iff)
      then have "2 \<le> unat (fix_timer s)" by arith
      moreover have "correction_drive_passes rds (tick rd s) \<le> unat (fix_timer s) - 1 - 1"
        using ih eq t by (simp add: unat_pred)
      ultimately show ?thesis
        using True drive by simp
    next
      case nodrive: False
      with step have "fix_timer (tick rd s) = fix_timer s \<or> fix_timer (tick rd s) = 0"
        by simp
      then have "correction_drive_passes rds (tick rd s) \<le> unat (fix_timer s) - 1"
        using ih by auto
      then show ?thesis
        using True nodrive by simp
    qed
  qed
qed

lemma started_left_eq:
  "tick down_left idle_state =
     \<lparr>fault = False, fix_timer = 750, fix_direction = LEFT_MOTOR,
      left_switch = True, right_switch = False,
      up_switch = False, down_switch = True,
      prev_up = False, prev_down = False,
      next_left = False, next_right = False,
      delay_next = 10,
      outputs = (\<lambda>p. False)\<rparr>"
  by (simp add: idle_state_eq down_left_def eval_simps)

lemma driving_down_left: "driving down_left"
  by (simp add: driving_def closed_defs input_defs switches_def pin_defs)

lemma driving_down_held: "driving down_held"
  by (simp add: driving_def closed_defs input_defs switches_def pin_defs)

lemma last_pass_left_state:
  "\<not> fault (run (replicate 748 down_left) correcting_left_state) \<and>
   delay_next (run (replicate 748 down_left) correcting_left_state) = 0 \<and>
   fix_timer (run (replicate 748 down_left) correcting_left_state) = 1 \<and>
   fix_direction (run (replicate 748 down_left) correcting_left_state) = LEFT_MOTOR"
proof -
  let ?s = "correcting_left_state"
  have h1: "\<not> fault ?s" and h2: "delay_next ?s = 0" and h3: "fix_timer ?s = 749"
    and h4: "fix_direction ?s = LEFT_MOTOR" and t: "fix_timer ?s \<noteq> 0"
    and d: "fix_direction ?s \<noteq> 0"
    by (simp_all add: correcting_left_state_eq const_defs)
  have drv: "\<forall>rd \<in> set (replicate 748 down_left). driving rd"
    by (simp add: driving_down_left)
  have len: "length (replicate 748 down_left) < unat (delay_next ?s) + unat (fix_timer ?s)"
    by (simp add: h2 h3)
  note p = correction_progress [OF h1 t d drv len]
  from p have "unat (fix_timer (run (replicate 748 down_left) ?s)) = Suc 0"
    and "unat (delay_next (run (replicate 748 down_left) ?s)) = 0"
    by (simp_all add: h2 h3)
  then have "fix_timer (run (replicate 748 down_left) ?s) = 1"
    and "delay_next (run (replicate 748 down_left) ?s) = 0"
    by (simp_all add: unat_one_iff unat_eq_0)
  with p h4 show ?thesis by simp
qed

section \<open>The motor driver\<close>

text \<open>
  C6. After any call of \<open>set_motor_state\<close>, whatever the selection mask, the direction
  and the earlier levels of the pins, no motor has its In line and its Out line both
  HIGH, and a motor whose bit is not set in the mask has both of its lines LOW: the
  call writes all four pins, so no line keeps an earlier level.
\<close>

theorem set_motor_state_exclusive:
  "\<not> (set_motor_state motors dir out motorLeftIn \<and>
      set_motor_state motors dir out motorLeftOut) \<and>
   \<not> (set_motor_state motors dir out motorRightIn \<and>
      set_motor_state motors dir out motorRightOut) \<and>
   (motors AND LEFT_MOTOR = 0 \<longrightarrow>
      \<not> set_motor_state motors dir out motorLeftIn \<and>
      \<not> set_motor_state motors dir out motorLeftOut) \<and>
   (motors AND RIGHT_MOTOR = 0 \<longrightarrow>
      \<not> set_motor_state motors dir out motorRightIn \<and>
      \<not> set_motor_state motors dir out motorRightOut)"
  by (simp add: set_motor_state_def digitalWrite_def Let_def pin_defs RUN_IN_def RUN_OUT_def)

theorem set_motor_state_exclusive_witness:
  "LEFT_MOTOR AND RIGHT_MOTOR = 0 \<and> LEFT_MOTOR AND LEFT_MOTOR \<noteq> 0 \<and>
   set_motor_state LEFT_MOTOR RUN_IN (\<lambda>p. True) motorLeftIn \<and>
   \<not> set_motor_state LEFT_MOTOR RUN_IN (\<lambda>p. True) motorLeftOut \<and>
   \<not> set_motor_state LEFT_MOTOR RUN_IN (\<lambda>p. True) motorRightIn \<and>
   \<not> set_motor_state LEFT_MOTOR RUN_IN (\<lambda>p. True) motorRightOut"
  using set_motor_state_exclusive [of LEFT_MOTOR RUN_IN "\<lambda>p. True"]
  by (simp add: set_motor_state_def digitalWrite_def Let_def pin_defs const_defs)

section \<open>The fault latch\<close>

text \<open>
  C2. The fault flag is monotonic: if it is set after some passes of the loop, it is
  set after any further passes, whatever the switches read. No branch of \<open>loop\<close>
  writes \<open>False\<close> to it.
\<close>

theorem fault_latch_monotonic:
  "fault (run rds s) \<Longrightarrow> fault (run (rds @ rds') s)"
  by (simp add: run_append run_fault)

theorem fault_latch_monotonic_witness:
  "fault (run [switches False False True True]
            (setup_sketch (switches False False False False))) \<and>
   fault (run ([switches False False True True] @
               [switches False False False False, switches False True False False])
            (setup_sketch (switches False False False False)))"
proof -
  have h: "fault (run [switches False False True True]
                    (setup_sketch (switches False False False False)))"
    by code_simp
  show ?thesis using h fault_latch_monotonic [OF h] by blast
qed

section \<open>The settling window\<close>

text \<open>
  C7, as the code has it. On a pass entered with \<open>delay_next\<close> nonzero, with the
  fault flag clear and a reading that does not set it, the only motor command is Off
  for both motors, all four relay lines are LOW afterwards, and the state changes in
  nothing but the sampled switch values, \<open>delay_next\<close> (one less, without
  wrapping) and the relay lines: no later stage runs.
\<close>

theorem debounce_tick:
  assumes "delay_next s \<noteq> 0" and "\<not> fault s" and "\<not> fault_inputs rd"
  shows "snd (loop rd s) = [MotorCmd BOTH_MOTOR RUN_OFF, Delay 1] \<and>
         all_off (outputs (tick rd s)) \<and>
         tick rd s = (detect_switches rd s)
            \<lparr>delay_next := delay_next s - 1,
             outputs := set_motor_state BOTH_MOTOR RUN_OFF (outputs s)\<rparr> \<and>
         unat (delay_next (tick rd s)) + 1 = unat (delay_next s)"
proof -
  have "0 < unat (delay_next s)"
    using assms(1) by (simp add: unat_gt_0)
  then show ?thesis
    using assms by (simp add: tick_def loop_debounce set_motor_state_off unat_minus_one)
qed

theorem debounce_tick_witness:
  "delay_next (setup_sketch released) \<noteq> 0 \<and> \<not> fault (setup_sketch released) \<and>
   \<not> fault_inputs down_left \<and>
   snd (loop down_left (setup_sketch released)) = [MotorCmd BOTH_MOTOR RUN_OFF, Delay 1] \<and>
   all_off (outputs (tick down_left (setup_sketch released))) \<and>
   delay_next (tick down_left (setup_sketch released)) = 9"
proof -
  have h1: "delay_next (setup_sketch released) \<noteq> 0"
    by (simp add: eval_simps)
  have h2: "\<not> fault (setup_sketch released)"
    by (simp add: eval_simps)
  have h3: "\<not> fault_inputs down_left"
    by (simp add: closed_defs input_defs switches_def pin_defs)
  have h4: "delay_next (tick down_left (setup_sketch released)) = 9"
    by (simp add: input_defs eval_simps)
  show ?thesis using h1 h2 h3 h4 debounce_tick [OF h1 h2 h3] by blast
qed

text \<open>
  C7 as stated fails: right after start-up \<open>delay_next\<close> is 10, and a pass on which
  both limit switches read closed issues no motor command and leaves \<open>delay_next\<close>
  at 10, because the fault test returns before the settling stage.
\<close>

theorem debounce_tick_counterexample:
  "delay_next (setup_sketch released) = 10 \<and>
   snd (loop (switches False False True True) (setup_sketch released)) =
     [SerialPrint (''fault!'' @ [CHR 0x0A]), Delay 1000] \<and>
   delay_next (tick (switches False False True True) (setup_sketch released)) = 10"
  by (simp add: input_defs eval_simps)

section \<open>What a faulted pass does to the motors\<close>

text \<open>
  C1, evaluated on the code. From \<open>driving_in_state\<close> (down held, both motors
  running in, fault flag clear), a pass on which up and down both read closed sets the
  fault flag and returns after printing and pausing: it calls \<open>set_motor_state\<close> not
  at all, so the In lines of both motors stay HIGH. The next pass, with every switch
  released, does the same. The code commands nothing on a faulted pass; it does not
  command Off.
\<close>

theorem fault_tick_leaves_relays_energised:
  "\<not> fault driving_in_state \<and>
   outputs driving_in_state motorLeftIn \<and> outputs driving_in_state motorRightIn \<and>
   snd (loop (switches True True False False) driving_in_state) =
     [SerialPrint (''fault!'' @ [CHR 0x0A]), Delay 1000] \<and>
   fault (tick (switches True True False False) driving_in_state) \<and>
   outputs (tick (switches True True False False) driving_in_state) motorLeftIn \<and>
   outputs (tick (switches True True False False) driving_in_state) motorRightIn \<and>
   snd (loop released (tick (switches True True False False) driving_in_state)) =
     [SerialPrint (''fault!'' @ [CHR 0x0A]), Delay 1000] \<and>
   outputs (run [switches True True False False, released] driving_in_state) motorLeftIn \<and>
   outputs (run [switches True True False False, released] driving_in_state) motorRightIn"
  by (simp add: driving_in_state_eq released_def eval_simps)

theorem fault_tick_leaves_relays_energised_witness:
  "fault (tick (switches True True False False) driving_in_state) \<and>
   outputs (tick (switches True True False False) driving_in_state) motorLeftIn \<and>
   outputs (tick (switches True True False False) driving_in_state) motorRightIn"
  using fault_tick_leaves_relays_energised by blast

section \<open>A correction while no manual switch is held\<close>

text \<open>
  C8, as the code has it. On a pass with the fault flag clear, a reading that does
  not set it, a correction active (\<open>fix_timer\<close> and \<open>fix_direction\<close> nonzero) and
  neither manual switch closed, the only motor command is Off for both motors, all
  four relay lines are LOW afterwards, and \<open>fix_timer\<close>, \<open>fix_direction\<close> and the
  fault flag are unchanged; outside the settling window nothing changes but the
  sampled switch values and the relay lines. If the settling window is over after
  that pass and the next reading has a manual switch closed (and sets no fault), that
  pass decrements \<open>fix_timer\<close> from the value it kept.
\<close>

theorem correction_paused:
  assumes "\<not> fault s" and "\<not> fault_inputs rd"
    and "fix_timer s \<noteq> 0" and "fix_direction s \<noteq> 0"
    and "\<not> up_closed rd" and "\<not> down_closed rd"
  shows "motor_cmds rd s = [MotorCmd BOTH_MOTOR RUN_OFF] \<and>
         all_off (outputs (tick rd s)) \<and>
         fix_timer (tick rd s) = fix_timer s \<and>
         fix_direction (tick rd s) = fix_direction s \<and>
         \<not> fault (tick rd s) \<and>
         (delay_next s = 0 \<longrightarrow>
            tick rd s = (detect_switches rd s)
               \<lparr>outputs := set_motor_state BOTH_MOTOR RUN_OFF (outputs s)\<rparr>) \<and>
         (delay_next (tick rd s) = 0 \<and> \<not> fault_inputs rd' \<and>
          (up_closed rd' \<or> down_closed rd') \<longrightarrow>
            fix_timer (tick rd' (tick rd s)) = fix_timer s - 1)"
proof (cases "delay_next s = 0")
  case True
  have eq: "tick rd s = (detect_switches rd s)
               \<lparr>outputs := set_motor_state BOTH_MOTOR RUN_OFF (outputs s)\<rparr>"
    using assms True by (simp add: tick_def loop_pause)
  have cmds: "motor_cmds rd s = [MotorCmd BOTH_MOTOR RUN_OFF]"
    using assms True by (simp add: motor_cmds_def loop_pause)
  have st: "\<not> fault (tick rd s)" "fix_timer (tick rd s) = fix_timer s"
    "fix_direction (tick rd s) = fix_direction s" "delay_next (tick rd s) = 0"
    using assms True by (simp_all add: eq detect_switches_def)
  have resume: "fix_timer (tick rd' (tick rd s)) = fix_timer s - 1"
    if "\<not> fault_inputs rd'" and "up_closed rd' \<or> down_closed rd'"
  proof (cases "fix_timer s = 1")
    case True
    then show ?thesis
      using st that assms
      by (simp add: tick_def [of rd'] loop_correct_done detect_switches_def)
  next
    case False
    then show ?thesis
      using st that assms
      by (simp add: tick_def [of rd'] loop_correct_step detect_switches_def)
  qed
  show ?thesis
    using cmds st resume eq by (simp add: set_motor_state_off)
next
  case False
  have eq: "tick rd s = (detect_switches rd s)
            \<lparr>delay_next := delay_next s - 1,
             outputs := set_motor_state BOTH_MOTOR RUN_OFF (outputs s)\<rparr>"
    using assms False by (simp add: tick_def loop_debounce)
  have cmds: "motor_cmds rd s = [MotorCmd BOTH_MOTOR RUN_OFF]"
    using assms False by (simp add: motor_cmds_def loop_debounce)
  have st: "\<not> fault (tick rd s)" "fix_timer (tick rd s) = fix_timer s"
    "fix_direction (tick rd s) = fix_direction s"
    using assms by (simp_all add: eq detect_switches_def)
  have resume: "fix_timer (tick rd' (tick rd s)) = fix_timer s - 1"
    if "delay_next (tick rd s) = 0" and "\<not> fault_inputs rd'"
      and "up_closed rd' \<or> down_closed rd'"
  proof (cases "fix_timer s = 1")
    case True
    then show ?thesis
      using st that assms
      by (simp add: tick_def [of rd'] loop_correct_done detect_switches_def)
  next
    case False
    then show ?thesis
      using st that assms
      by (simp add: tick_def [of rd'] loop_correct_step detect_switches_def)
  qed
  show ?thesis
    using cmds st resume False by (simp add: eq set_motor_state_off)
qed

theorem correction_paused_witness:
  "\<not> fault correcting_left_state \<and> \<not> fault_inputs released \<and>
   fix_timer correcting_left_state \<noteq> 0 \<and> fix_direction correcting_left_state \<noteq> 0 \<and>
   \<not> up_closed released \<and> \<not> down_closed released \<and>
   delay_next (tick released correcting_left_state) = 0 \<and>
   \<not> fault_inputs down_left \<and> (up_closed down_left \<or> down_closed down_left) \<and>
   motor_cmds released correcting_left_state = [MotorCmd BOTH_MOTOR RUN_OFF] \<and>
   all_off (outputs (tick released correcting_left_state)) \<and>
   fix_timer (tick released correcting_left_state) = 749 \<and>
   fix_direction (tick released correcting_left_state) = LEFT_MOTOR \<and>
   fix_timer (tick down_left (tick released correcting_left_state)) = 748"
proof -
  have h1: "\<not> fault correcting_left_state"
    and h3: "fix_timer correcting_left_state \<noteq> 0"
    and h4: "fix_direction correcting_left_state \<noteq> 0"
    and v1: "fix_timer correcting_left_state = 749"
    and v2: "fix_direction correcting_left_state = LEFT_MOTOR"
    and v3: "delay_next correcting_left_state = 0"
    by (simp_all add: correcting_left_state_eq const_defs)
  have h2: "\<not> fault_inputs released" and h5: "\<not> up_closed released"
    and h6: "\<not> down_closed released" and h7: "\<not> fault_inputs down_left"
    and h8: "up_closed down_left \<or> down_closed down_left"
    by (simp_all add: closed_defs input_defs switches_def pin_defs)
  have h9: "delay_next (tick released correcting_left_state) = 0"
    by (simp add: correcting_left_state_eq input_defs eval_simps)
  note r = correction_paused [OF h1 h2 h3 h4 h5 h6, of down_left]
  from r have c1: "motor_cmds released correcting_left_state = [MotorCmd BOTH_MOTOR RUN_OFF]"
    and c2: "all_off (outputs (tick released correcting_left_state))"
    and c3: "fix_timer (tick released correcting_left_state) = fix_timer correcting_left_state"
    and c4: "fix_direction (tick released correcting_left_state) =
             fix_direction correcting_left_state"
    by blast+
  from r h7 h8 h9
  have c5: "fix_timer (tick down_left (tick released correcting_left_state)) =
            fix_timer correcting_left_state - 1"
    by blast
  have c6: "fix_timer correcting_left_state - 1 = 748"
    by (simp add: v1)
  show ?thesis
    using h1 h2 h3 h4 h5 h6 h7 h8 h9 c1 c2 c3 c4 c5 c6
    by (simp only: v1 v2 simp_thms)
qed

text \<open>
  C8 as stated fails: with a left correction active (\<open>fix_timer\<close> 749, the left In
  line HIGH) and neither manual switch closed, a pass on which both limit switches
  read closed issues no motor command, leaves the left In line HIGH and sets the
  fault flag, after which the correction never resumes.
\<close>

theorem correction_paused_counterexample:
  "\<not> fault correcting_left_state \<and>
   fix_timer correcting_left_state = 749 \<and>
   fix_direction correcting_left_state = LEFT_MOTOR \<and>
   outputs correcting_left_state motorLeftIn \<and>
   \<not> up_closed (switches False False True True) \<and>
   \<not> down_closed (switches False False True True) \<and>
   motor_cmds (switches False False True True) correcting_left_state = [] \<and>
   outputs (tick (switches False False True True) correcting_left_state) motorLeftIn \<and>
   fault (tick (switches False False True True) correcting_left_state)"
  by (simp add: correcting_left_state_eq motor_cmds_def closed_defs eval_simps)

section \<open>Manual drive\<close>

text \<open>
  C9, as the code has it. On a pass with the fault flag clear, a reading that does
  not set it, \<open>delay_next\<close> zero, no correction active, neither limit switch closed
  and both manual switches reading as recorded in \<open>prev_up\<close> and \<open>prev_down\<close>:
  if down is closed both motors are commanded In; otherwise if up is closed both are
  commanded Out; if neither is closed nothing is printed, commanded or delayed and
  the relay lines keep their levels.
\<close>

theorem manual_drive:
  assumes "\<not> fault s" and "\<not> fault_inputs rd" and "delay_next s = 0"
    and "\<not> (fix_timer s \<noteq> 0 \<and> fix_direction s \<noteq> 0)"
    and "\<not> left_closed rd" and "\<not> right_closed rd"
    and "up_closed rd = prev_up s" and "down_closed rd = prev_down s"
  shows "(down_closed rd \<longrightarrow>
            snd (loop rd s) = [MotorCmd BOTH_MOTOR RUN_IN, Delay 1] \<and>
            outputs (tick rd s) = set_motor_state BOTH_MOTOR RUN_IN (outputs s)) \<and>
         (\<not> down_closed rd \<and> up_closed rd \<longrightarrow>
            snd (loop rd s) = [MotorCmd BOTH_MOTOR RUN_OUT, Delay 1] \<and>
            outputs (tick rd s) = set_motor_state BOTH_MOTOR RUN_OUT (outputs s)) \<and>
         (\<not> down_closed rd \<and> \<not> up_closed rd \<longrightarrow>
            snd (loop rd s) = [] \<and> outputs (tick rd s) = outputs s)"
  using assms by (simp add: tick_def loop_manual detect_switches_def)

theorem manual_drive_witness:
  "\<not> fault driving_in_state \<and> \<not> fault_inputs down_held \<and>
   delay_next driving_in_state = 0 \<and>
   \<not> (fix_timer driving_in_state \<noteq> 0 \<and> fix_direction driving_in_state \<noteq> 0) \<and>
   \<not> left_closed down_held \<and> \<not> right_closed down_held \<and>
   up_closed down_held = prev_up driving_in_state \<and>
   down_closed down_held = prev_down driving_in_state \<and>
   down_closed down_held \<and>
   snd (loop down_held driving_in_state) = [MotorCmd BOTH_MOTOR RUN_IN, Delay 1] \<and>
   outputs (tick down_held driving_in_state) motorLeftIn \<and>
   outputs (tick down_held driving_in_state) motorRightIn"
proof -
  have h1: "\<not> fault driving_in_state" and h3: "delay_next driving_in_state = 0"
    and h4: "\<not> (fix_timer driving_in_state \<noteq> 0 \<and> fix_direction driving_in_state \<noteq> 0)"
    by (simp_all add: driving_in_state_eq)
  have h2: "\<not> fault_inputs down_held" and h5: "\<not> left_closed down_held"
    and h6: "\<not> right_closed down_held" and h9: "down_closed down_held"
    by (simp_all add: closed_defs input_defs switches_def pin_defs)
  have h7: "up_closed down_held = prev_up driving_in_state"
    and h8: "down_closed down_held = prev_down driving_in_state"
    by (simp_all add: driving_in_state_eq closed_defs input_defs switches_def pin_defs)
  have v: "set_motor_state BOTH_MOTOR RUN_IN (outputs driving_in_state) motorLeftIn"
    "set_motor_state BOTH_MOTOR RUN_IN (outputs driving_in_state) motorRightIn"
    by (simp_all add: set_motor_state_def digitalWrite_def Let_def pin_defs const_defs)
  show ?thesis
    using manual_drive [OF h1 h2 h3 h4 h5 h6 h7 h8] h1 h2 h3 h4 h5 h6 h7 h8 h9 v
    by simp
qed

text \<open>
  C9 as stated fails: in \<open>idle_state\<close> (fault flag clear, \<open>delay_next\<close> zero, no
  correction active) a pass on which down reads closed, with no limit switch closed,
  commands nothing; it records the transition and arms the settling window.
\<close>

theorem manual_drive_counterexample:
  "\<not> fault idle_state \<and> delay_next idle_state = 0 \<and>
   fix_timer idle_state = 0 \<and> fix_direction idle_state = NO_MOTOR \<and>
   down_closed down_held \<and> \<not> left_closed down_held \<and> \<not> right_closed down_held \<and>
   snd (loop down_held idle_state) = [] \<and>
   delay_next (tick down_held idle_state) = 10"
  by (simp add: idle_state_eq closed_defs input_defs eval_simps)

section \<open>Passes that arm the settling window\<close>

text \<open>
  C10, as the code has it. On a pass with the fault flag clear, a reading that does
  not set it,
  \<open>delay_next\<close> zero and no correction active, on which a limit switch reads closed
  (a correction starts) or a manual switch reads other than recorded (a transition is
  detected), no motor command is issued, the relay lines keep the levels of the
  earlier pass, and \<open>delay_next\<close> is set to 10. On the following pass, unless its
  reading sets the fault flag, the settling stage commands Off for both motors and
  all four relay lines go LOW.
\<close>

theorem arming_pass_commands_nothing:
  assumes "\<not> fault s" and "\<not> fault_inputs rd" and "delay_next s = 0"
    and "\<not> (fix_timer s \<noteq> 0 \<and> fix_direction s \<noteq> 0)"
    and "left_closed rd \<or> right_closed rd \<or>
         up_closed rd \<noteq> prev_up s \<or> down_closed rd \<noteq> prev_down s"
  shows "motor_cmds rd s = [] \<and>
         outputs (tick rd s) = outputs s \<and>
         delay_next (tick rd s) = 10 \<and>
         \<not> fault (tick rd s) \<and>
         (\<not> fault_inputs rd' \<longrightarrow>
            snd (loop rd' (tick rd s)) = [MotorCmd BOTH_MOTOR RUN_OFF, Delay 1] \<and>
            all_off (outputs (tick rd' (tick rd s))) \<and>
            delay_next (tick rd' (tick rd s)) = 9)"
proof -
  have first: "motor_cmds rd s = [] \<and> outputs (tick rd s) = outputs s \<and>
               delay_next (tick rd s) = 10 \<and> \<not> fault (tick rd s)"
  proof (cases "left_closed rd")
    case True
    with assms show ?thesis
      by (simp add: motor_cmds_def tick_def loop_start_left detect_switches_def)
  next
    case nl: False
    show ?thesis
    proof (cases "right_closed rd")
      case True
      with nl assms show ?thesis
        by (simp add: motor_cmds_def tick_def loop_start_right detect_switches_def)
    next
      case False
      with nl assms show ?thesis
        by (simp add: motor_cmds_def tick_def loop_transition detect_switches_def)
    qed
  qed
  have second: "snd (loop rd' (tick rd s)) = [MotorCmd BOTH_MOTOR RUN_OFF, Delay 1] \<and>
                all_off (outputs (tick rd' (tick rd s))) \<and>
                delay_next (tick rd' (tick rd s)) = 9"
    if "\<not> fault_inputs rd'"
  proof -
    have d: "delay_next (tick rd s) \<noteq> 0" and f: "\<not> fault (tick rd s)"
      and v: "delay_next (tick rd s) - 1 = 9"
      using first by simp_all
    show ?thesis
      using loop_debounce [OF f that d] v
      by (simp add: tick_def [of rd'] set_motor_state_off detect_switches_def)
  qed
  show ?thesis using first second by blast
qed

theorem arming_pass_commands_nothing_witness:
  "\<not> fault driving_out_state \<and> \<not> fault_inputs (switches True False True False) \<and>
   delay_next driving_out_state = 0 \<and>
   \<not> (fix_timer driving_out_state \<noteq> 0 \<and> fix_direction driving_out_state \<noteq> 0) \<and>
   left_closed (switches True False True False) \<and>
   \<not> fault_inputs up_held \<and>
   outputs driving_out_state motorLeftOut \<and> outputs driving_out_state motorRightOut \<and>
   motor_cmds (switches True False True False) driving_out_state = [] \<and>
   outputs (tick (switches True False True False) driving_out_state) motorLeftOut \<and>
   outputs (tick (switches True False True False) driving_out_state) motorRightOut \<and>
   delay_next (tick (switches True False True False) driving_out_state) = 10 \<and>
   snd (loop up_held (tick (switches True False True False) driving_out_state)) =
     [MotorCmd BOTH_MOTOR RUN_OFF, Delay 1] \<and>
   all_off (outputs (tick up_held (tick (switches True False True False) driving_out_state)))"
proof -
  have h1: "\<not> fault driving_out_state" and h3: "delay_next driving_out_state = 0"
    and h4: "\<not> (fix_timer driving_out_state \<noteq> 0 \<and> fix_direction driving_out_state \<noteq> 0)"
    and o: "outputs driving_out_state motorLeftOut" "outputs driving_out_state motorRightOut"
    by (simp_all add: driving_out_state_eq)
  have h2: "\<not> fault_inputs (switches True False True False)"
    and l: "left_closed (switches True False True False)"
    and h6: "\<not> fault_inputs up_held"
    by (simp_all add: closed_defs input_defs switches_def pin_defs)
  from l have h5: "left_closed (switches True False True False) \<or>
      right_closed (switches True False True False) \<or>
      up_closed (switches True False True False) \<noteq> prev_up driving_out_state \<or>
      down_closed (switches True False True False) \<noteq> prev_down driving_out_state"
    by blast
  note r = arming_pass_commands_nothing [OF h1 h2 h3 h4 h5, of up_held]
  from r have c1: "motor_cmds (switches True False True False) driving_out_state = []"
    and c2: "outputs (tick (switches True False True False) driving_out_state) =
             outputs driving_out_state"
    and c3: "delay_next (tick (switches True False True False) driving_out_state) = 10"
    by blast+
  from r h6 have c4:
    "snd (loop up_held (tick (switches True False True False) driving_out_state)) =
       [MotorCmd BOTH_MOTOR RUN_OFF, Delay 1]"
    and c5: "all_off (outputs (tick up_held
               (tick (switches True False True False) driving_out_state)))"
    by blast+
  show ?thesis
    using h1 h2 h3 h4 l h6 o c1 c3 c4 c5 by (simp only: c2 simp_thms)
qed

text \<open>
  C10 as stated fails: from \<open>driving_out_state\<close> (both motors running out) a pass
  with up and the left limit switch closed starts a left correction and commands
  nothing; when the following pass reads both limit switches closed, it sets the fault
  flag and returns before the settling stage, so nothing is commanded, \<open>delay_next\<close>
  stays 10 and both Out lines stay HIGH, on that pass and the next.
\<close>

theorem arming_pass_commands_nothing_counterexample:
  "\<not> fault driving_out_state \<and> delay_next driving_out_state = 0 \<and>
   fix_timer driving_out_state = 0 \<and> fix_direction driving_out_state = NO_MOTOR \<and>
   outputs driving_out_state motorLeftOut \<and> outputs driving_out_state motorRightOut \<and>
   left_closed (switches True False True False) \<and>
   \<not> right_closed (switches True False True False) \<and>
   snd (loop (switches True False True False) driving_out_state) =
     [SerialPrintln ''fix left''] \<and>
   delay_next (tick (switches True False True False) driving_out_state) = 10 \<and>
   snd (loop (switches True False True True)
          (tick (switches True False True False) driving_out_state)) =
     [SerialPrint (''fault!'' @ [CHR 0x0A]), Delay 1000] \<and>
   outputs (tick (switches True False True True)
              (tick (switches True False True False) driving_out_state)) motorLeftOut \<and>
   outputs (tick (switches True False True True)
              (tick (switches True False True False) driving_out_state)) motorRightOut \<and>
   delay_next (tick (switches True False True True)
                 (tick (switches True False True False) driving_out_state)) = 10 \<and>
   outputs (run [switches True False True False, switches True False True True, released]
              driving_out_state) motorLeftOut \<and>
   outputs (run [switches True False True False, switches True False True True, released]
              driving_out_state) motorRightOut"
  by (simp add: driving_out_state_eq closed_defs input_defs eval_simps)

section \<open>The correction sequencer\<close>

text \<open>
  C3, as the code has it. During an active left correction the limit switches are not
  read before the timer runs out. On a pass of the correction stage (fault flag
  clear, no fault reading, \<open>delay_next\<close> zero, a manual switch closed) on which the
  left limit switch reads open: while \<open>fix_timer\<close> is not 1, the left motor is
  commanded In again, the timer is decremented and the correction stays active; when
  \<open>fix_timer\<close> is 1, both motors are commanded Off, timer and direction are
  cleared, and the fault flag is set exactly when the right limit switch reads closed.
\<close>

theorem left_correction_runs_to_timeout:
  assumes "\<not> fault s" and "\<not> fault_inputs rd" and "delay_next s = 0"
    and "fix_timer s \<noteq> 0" and "fix_direction s = LEFT_MOTOR"
    and "up_closed rd \<or> down_closed rd" and "\<not> left_closed rd"
  shows "(fix_timer s \<noteq> 1 \<longrightarrow>
            snd (loop rd s) = [MotorCmd LEFT_MOTOR RUN_IN, Delay 1] \<and>
            outputs (tick rd s) motorLeftIn \<and>
            fix_timer (tick rd s) = fix_timer s - 1 \<and>
            fix_timer (tick rd s) \<noteq> 0 \<and>
            fix_direction (tick rd s) = LEFT_MOTOR \<and>
            \<not> fault (tick rd s)) \<and>
         (fix_timer s = 1 \<longrightarrow>
            snd (loop rd s) = [MotorCmd BOTH_MOTOR RUN_OFF, Delay 1] \<and>
            all_off (outputs (tick rd s)) \<and>
            fix_timer (tick rd s) = 0 \<and>
            fix_direction (tick rd s) = NO_MOTOR \<and>
            fault (tick rd s) = right_closed rd)"
proof -
  have d: "fix_direction s \<noteq> 0"
    using assms by (simp add: LEFT_MOTOR_def)
  have step: "snd (loop rd s) = [MotorCmd LEFT_MOTOR RUN_IN, Delay 1] \<and>
            outputs (tick rd s) motorLeftIn \<and>
            fix_timer (tick rd s) = fix_timer s - 1 \<and>
            fix_timer (tick rd s) \<noteq> 0 \<and>
            fix_direction (tick rd s) = LEFT_MOTOR \<and>
            \<not> fault (tick rd s)"
    if "fix_timer s \<noteq> 1"
    using loop_correct_step [OF assms(1,2,3,4) d assms(6) that] assms(1,5) that
    by (simp add: tick_def detect_switches_def set_motor_state_def digitalWrite_def
          Let_def pin_defs const_defs)
  have fin: "snd (loop rd s) = [MotorCmd BOTH_MOTOR RUN_OFF, Delay 1] \<and>
            all_off (outputs (tick rd s)) \<and>
            fix_timer (tick rd s) = 0 \<and>
            fix_direction (tick rd s) = NO_MOTOR \<and>
            fault (tick rd s) = right_closed rd"
    if "fix_timer s = 1"
    using loop_correct_done [OF assms(1,2,3) that d assms(6)] assms(1,7)
    by (simp add: tick_def detect_switches_def set_motor_state_off)
  show ?thesis using step fin by blast
qed

theorem left_correction_runs_to_timeout_witness:
  "\<not> fault correcting_left_state \<and> \<not> fault_inputs down_held \<and>
   delay_next correcting_left_state = 0 \<and> fix_timer correcting_left_state \<noteq> 0 \<and>
   fix_direction correcting_left_state = LEFT_MOTOR \<and>
   (up_closed down_held \<or> down_closed down_held) \<and> \<not> left_closed down_held \<and>
   \<not> right_closed down_held \<and>
   fix_timer correcting_left_state \<noteq> 1 \<and>
   snd (loop down_held correcting_left_state) = [MotorCmd LEFT_MOTOR RUN_IN, Delay 1] \<and>
   outputs (tick down_held correcting_left_state) motorLeftIn \<and>
   fix_timer (tick down_held correcting_left_state) \<noteq> 0 \<and>
   fix_direction (tick down_held correcting_left_state) = LEFT_MOTOR \<and>
   \<not> fault (tick down_held correcting_left_state) \<and>
   fix_timer (run (replicate 748 down_left) correcting_left_state) = 1 \<and>
   snd (loop down_held (run (replicate 748 down_left) correcting_left_state)) =
     [MotorCmd BOTH_MOTOR RUN_OFF, Delay 1] \<and>
   all_off (outputs (tick down_held (run (replicate 748 down_left) correcting_left_state))) \<and>
   fix_timer (tick down_held (run (replicate 748 down_left) correcting_left_state)) = 0 \<and>
   fix_direction (tick down_held (run (replicate 748 down_left) correcting_left_state)) =
     NO_MOTOR \<and>
   \<not> fault (tick down_held (run (replicate 748 down_left) correcting_left_state))"
proof -
  have h1: "\<not> fault correcting_left_state" and h3: "delay_next correcting_left_state = 0"
    and h4: "fix_timer correcting_left_state \<noteq> 0"
    and h5: "fix_direction correcting_left_state = LEFT_MOTOR"
    and h8: "fix_timer correcting_left_state \<noteq> 1"
    by (simp_all add: correcting_left_state_eq)
  have h2: "\<not> fault_inputs down_held"
    and h6: "up_closed down_held \<or> down_closed down_held"
    and h7: "\<not> left_closed down_held"
    and h9: "\<not> right_closed down_held"
    by (simp_all add: closed_defs input_defs switches_def pin_defs)
  let ?s = "run (replicate 748 down_left) correcting_left_state"
  have k1: "\<not> fault ?s" and k3: "delay_next ?s = 0" and k4: "fix_timer ?s \<noteq> 0"
    and k5: "fix_direction ?s = LEFT_MOTOR" and k8: "fix_timer ?s = 1"
    using last_pass_left_state by simp_all
  note a = left_correction_runs_to_timeout [OF h1 h2 h3 h4 h5 h6 h7]
  note b = left_correction_runs_to_timeout [OF k1 h2 k3 k4 k5 h6 h7]
  show ?thesis
    using a b h1 h2 h3 h4 h5 h6 h7 h8 h9 k8 by blast
qed

text \<open>
  C3 as stated fails: in \<open>correcting_left_state\<close> (left correction active, timer 749)
  a pass with down held and the left limit switch open commands the left motor In and
  leaves the correction active with timer 748; the motor is not stopped and the
  controller is not idle.
\<close>

theorem left_correction_runs_to_timeout_counterexample:
  "\<not> fault correcting_left_state \<and>
   fix_timer correcting_left_state = 749 \<and>
   fix_direction correcting_left_state = LEFT_MOTOR \<and>
   \<not> left_closed down_held \<and>
   snd (loop down_held correcting_left_state) = [MotorCmd LEFT_MOTOR RUN_IN, Delay 1] \<and>
   outputs (tick down_held correcting_left_state) motorLeftIn \<and>
   fix_timer (tick down_held correcting_left_state) = 748 \<and>
   fix_direction (tick down_held correcting_left_state) = LEFT_MOTOR"
  by (simp add: correcting_left_state_eq closed_defs input_defs eval_simps)

text \<open>
  C5, as the code has it. In every state reached from start-up in which a correction
  is active (\<open>fix_direction\<close> is not \<open>NO_MOTOR\<close>), every motor command of the
  next pass is either Off for both motors or In for the motor being corrected alone
  (the left or the right motor, never both); none has direction Out, and after a
  pass that issues a command both Out lines are LOW.
\<close>

theorem correction_never_drives_out:
  assumes "fix_direction (run rds (setup_sketch rd0)) \<noteq> NO_MOTOR"
    and "MotorCmd m d \<in> set (snd (loop rd (run rds (setup_sketch rd0))))"
  shows "d \<noteq> RUN_OUT \<and>
         ((m = BOTH_MOTOR \<and> d = RUN_OFF) \<or>
          (m = fix_direction (run rds (setup_sketch rd0)) \<and> d = RUN_IN \<and>
           (m = LEFT_MOTOR \<or> m = RIGHT_MOTOR))) \<and>
         \<not> outputs (tick rd (run rds (setup_sketch rd0))) motorLeftOut \<and>
         \<not> outputs (tick rd (run rds (setup_sketch rd0))) motorRightOut"
proof -
  let ?s = "run rds (setup_sketch rd0)"
  have a: "fix_direction ?s \<noteq> 0"
    using assms(1) by (simp add: NO_MOTOR_def)
  have "fix_direction ?s \<noteq> 0 \<longrightarrow> fix_timer ?s \<noteq> 0"
    by (rule timer_inv_run) (simp add: timer_inv_setup)
  with a have t: "fix_timer ?s \<noteq> 0" by blast
  have "fix_direction ?s = NO_MOTOR \<or> fix_direction ?s = LEFT_MOTOR \<or>
        fix_direction ?s = RIGHT_MOTOR"
    by (rule dir_inv_run) (simp add: timer_inv_setup NO_MOTOR_def)
  with assms(1) have lr: "fix_direction ?s = LEFT_MOTOR \<or> fix_direction ?s = RIGHT_MOTOR"
    by blast
  have c: "(m = BOTH_MOTOR \<and> d = RUN_OFF) \<or> (m = fix_direction ?s \<and> d = RUN_IN)"
    using t a assms(2) by (rule active_commands)
  then have o: "d \<noteq> RUN_OUT"
    by (auto simp add: const_defs)
  have "motor_cmds rd ?s \<noteq> []"
  proof -
    have "MotorCmd m d \<in> set (motor_cmds rd ?s)"
      using assms(2) by (simp add: motor_cmds_def)
    then show ?thesis by auto
  qed
  with t a have "\<not> outputs (tick rd ?s) motorLeftOut \<and> \<not> outputs (tick rd ?s) motorRightOut"
    by (rule active_outputs)
  with c o lr show ?thesis by blast
qed

theorem correction_never_drives_out_witness:
  "fix_direction (run (replicate 10 released @ replicate 12 down_left) (setup_sketch released))
     \<noteq> NO_MOTOR \<and>
   MotorCmd LEFT_MOTOR RUN_IN \<in>
     set (snd (loop down_left
            (run (replicate 10 released @ replicate 12 down_left) (setup_sketch released)))) \<and>
   RUN_IN \<noteq> RUN_OUT \<and>
   \<not> outputs (tick down_left
        (run (replicate 10 released @ replicate 12 down_left) (setup_sketch released)))
      motorLeftOut"
proof -
  have e: "run (replicate 10 released @ replicate 12 down_left) (setup_sketch released) =
           correcting_left_state"
    by (simp only: run_append correcting_left_state_def idle_state_def)
  have h1: "fix_direction (run (replicate 10 released @ replicate 12 down_left)
              (setup_sketch released)) \<noteq> NO_MOTOR"
    unfolding e by (simp add: correcting_left_state_eq const_defs)
  have h2: "MotorCmd LEFT_MOTOR RUN_IN \<in>
     set (snd (loop down_left
            (run (replicate 10 released @ replicate 12 down_left) (setup_sketch released))))"
    unfolding e by (simp add: correcting_left_state_eq input_defs eval_simps)
  show ?thesis
    using correction_never_drives_out [OF h1 h2] h1 h2 by blast
qed

text \<open>
  C5 as stated fails: in \<open>correcting_left_state\<close> (left correction active, timer
  749) a pass with every switch released commands Off for both motors, the left motor
  among them; the command reaching the corrected motor has direction Off, not In, and
  the correction stays active.
\<close>

theorem correction_never_drives_out_counterexample:
  "\<not> fault correcting_left_state \<and>
   fix_timer correcting_left_state = 749 \<and>
   fix_direction correcting_left_state = LEFT_MOTOR \<and>
   snd (loop released correcting_left_state) = [MotorCmd BOTH_MOTOR RUN_OFF] \<and>
   BOTH_MOTOR AND LEFT_MOTOR \<noteq> 0 \<and>
   RUN_OFF \<noteq> RUN_IN \<and>
   \<not> outputs (tick released correcting_left_state) motorLeftIn \<and>
   fix_direction (tick released correcting_left_state) = LEFT_MOTOR"
  by (simp add: correcting_left_state_eq input_defs eval_simps)

text \<open>
  C4, as the code has it. The budget of 750 counts passes of the correction stage
  that decrement the timer, not passes since the correction started. From the state
  in which a correction has just started (timer 750, settling window 10, fault flag
  clear): under any readings whatever, the corrected motor is commanded In on at most
  749 passes before the correction is over; and when every reading has a manual switch
  closed and sets no fault, the correction is still active after each of the first 759
  passes and ends on pass 760, with timer and direction cleared, all relay lines LOW,
  and the fault flag set exactly when a limit switch reads closed on that pass.
\<close>

theorem correction_budget:
  assumes "\<not> fault s" and "delay_next s = 10" and "fix_timer s = 750"
    and "fix_direction s \<noteq> NO_MOTOR"
  shows "correction_drive_passes rds s \<le> 749 \<and>
         ((\<forall>rd \<in> set rds. driving rd) \<and> length rds < 760 \<longrightarrow>
            \<not> fault (run rds s) \<and> fix_timer (run rds s) \<noteq> 0 \<and>
            fix_direction (run rds s) = fix_direction s) \<and>
         ((\<forall>rd \<in> set rds. driving rd) \<and> length rds = 760 \<longrightarrow>
            fix_timer (run rds s) = 0 \<and> fix_direction (run rds s) = NO_MOTOR \<and>
            all_off (outputs (run rds s)) \<and>
            fault (run rds s) = (left_closed (last rds) \<or> right_closed (last rds)))"
proof -
  have t: "fix_timer s \<noteq> 0" and d: "fix_direction s \<noteq> 0"
    and sum: "unat (delay_next s) + unat (fix_timer s) = 760"
    using assms by (simp_all add: NO_MOTOR_def)
  have a: "correction_drive_passes rds s \<le> 749"
    using drive_passes_bound [of rds s] assms(3) by simp
  have b: "\<not> fault (run rds s) \<and> fix_timer (run rds s) \<noteq> 0 \<and>
            fix_direction (run rds s) = fix_direction s"
    if "\<forall>rd \<in> set rds. driving rd" and "length rds < 760"
    using correction_progress [OF assms(1) t d that(1)] that(2) sum by simp
  have c: "fix_timer (run rds s) = 0 \<and> fix_direction (run rds s) = NO_MOTOR \<and>
            all_off (outputs (run rds s)) \<and>
            fault (run rds s) = (left_closed (last rds) \<or> right_closed (last rds))"
    if "\<forall>rd \<in> set rds. driving rd" and "length rds = 760"
    using correction_completes [OF assms(1) t d that(1)] that(2) sum by simp
  show ?thesis using a b c by blast
qed

theorem correction_budget_witness:
  "\<not> fault (tick down_left idle_state) \<and>
   delay_next (tick down_left idle_state) = 10 \<and>
   fix_timer (tick down_left idle_state) = 750 \<and>
   fix_direction (tick down_left idle_state) \<noteq> NO_MOTOR \<and>
   driving down_left \<and> driving down_held \<and>
   length (replicate 759 down_left @ [down_held]) = 760 \<and>
   correction_drive_passes (replicate 759 down_left @ [down_held])
     (tick down_left idle_state) \<le> 749 \<and>
   fix_timer (run (replicate 759 down_left @ [down_held]) (tick down_left idle_state)) = 0 \<and>
   fix_direction (run (replicate 759 down_left @ [down_held]) (tick down_left idle_state)) =
     NO_MOTOR \<and>
   \<not> fault (run (replicate 759 down_left @ [down_held]) (tick down_left idle_state))"
proof -
  have h1: "\<not> fault (tick down_left idle_state)"
    and h2: "delay_next (tick down_left idle_state) = 10"
    and h3: "fix_timer (tick down_left idle_state) = 750"
    and h4: "fix_direction (tick down_left idle_state) \<noteq> NO_MOTOR"
    by (simp_all add: started_left_eq const_defs)
  have h5: "\<forall>rd \<in> set (replicate 759 down_left @ [down_held]). driving rd"
    by (simp add: driving_down_left driving_down_held)
  have h6: "length (replicate 759 down_left @ [down_held]) = 760"
    by simp
  have l: "\<not> (left_closed (last (replicate 759 down_left @ [down_held])) \<or>
               right_closed (last (replicate 759 down_left @ [down_held])))"
    by (simp add: closed_defs input_defs switches_def pin_defs)
  note r = correction_budget [OF h1 h2 h3 h4, of "replicate 759 down_left @ [down_held]"]
  show ?thesis
    using r h1 h2 h3 h4 h5 h6 l driving_down_left driving_down_held by blast
qed

text \<open>
  C4 as stated fails: a left correction starts on the pass that takes \<open>idle_state\<close>
  with down and the left limit switch closed; 750 passes later, with the same reading
  throughout, the fault flag is clear and the correction is still active with 10 on
  its timer, since the ten passes of the settling window did not decrement it.
\<close>

theorem correction_budget_counterexample:
  "\<not> fault (tick down_left idle_state) \<and>
   delay_next (tick down_left idle_state) = 10 \<and>
   fix_timer (tick down_left idle_state) = 750 \<and>
   fix_direction (tick down_left idle_state) = LEFT_MOTOR \<and>
   \<not> fault (run (replicate 750 down_left) (tick down_left idle_state)) \<and>
   fix_direction (run (replicate 750 down_left) (tick down_left idle_state)) = LEFT_MOTOR \<and>
   fix_timer (run (replicate 750 down_left) (tick down_left idle_state)) = 10"
proof -
  let ?s = "tick down_left idle_state"
  have h1: "\<not> fault ?s" and h2: "delay_next ?s = 10" and h3: "fix_timer ?s = 750"
    and h4: "fix_direction ?s = LEFT_MOTOR" and t: "fix_timer ?s \<noteq> 0"
    and d: "fix_direction ?s \<noteq> 0"
    by (simp_all add: started_left_eq const_defs)
  have drv: "\<forall>rd \<in> set (replicate 750 down_left). driving rd"
    by (simp add: driving_down_left)
  have len: "length (replicate 750 down_left) < unat (delay_next ?s) + unat (fix_timer ?s)"
    by (simp add: h2 h3)
  note p = correction_progress [OF h1 t d drv len]
  from p have u: "unat (fix_timer (run (replicate 750 down_left) ?s)) = 10"
    by (simp add: h2 h3)
  have "fix_timer (run (replicate 750 down_left) ?s) =
        word_of_nat (unat (fix_timer (run (replicate 750 down_left) ?s)))"
    by simp
  then have v: "fix_timer (run (replicate 750 down_left) ?s) = 10"
    by (simp only: u) simp
  from p have "\<not> fault (run (replicate 750 down_left) ?s)"
    and "fix_direction (run (replicate 750 down_left) ?s) = LEFT_MOTOR"
    by (simp_all add: h4)
  with h1 h2 h3 h4 v show ?thesis by blast
qed

end
